theory Spec2Isabelle
  imports Complex_Main "HOL-Library.AList" "HOL-Library.Sublist"
begin

section \<open>Strings\<close>

text \<open>
  Python strings are modelled as \<^typ>\<open>string\<close>: a character is a code point below
  256. On these, \<open>str.lower\<close> maps \<open>A\<close>..\<open>Z\<close> (65..90) and the upper-case letters
  192..222 other than the multiplication sign 215 to the code point 32 above them, and
  leaves every other character alone; \<open>str.strip\<close> removes, at both ends, the characters
  for which \<open>str.isspace\<close> holds: 9..13 (tab, line feed, vertical tab, form feed,
  carriage return), the separators 28..31, the space 32, the next-line control 133 and
  the no-break space 160.
\<close>

definition lower_char :: "char \<Rightarrow> char" where
  "lower_char c =
     (let n = (of_char c :: nat)
      in if (65 \<le> n \<and> n \<le> 90) \<or> (192 \<le> n \<and> n \<le> 222 \<and> n \<noteq> 215)
         then char_of (n + 32) else c)"

definition lower :: "string \<Rightarrow> string" where
  "lower s = map lower_char s"

definition is_space :: "char \<Rightarrow> bool" where
  "is_space c =
     (c \<in> set [CHR 0x09, CHR 0x0A, CHR 0x0B, CHR 0x0C, CHR 0x0D,
               CHR 0x1C, CHR 0x1D, CHR 0x1E, CHR 0x1F, CHR '' '', CHR 0x85, CHR 0xA0])"

definition strip :: "string \<Rightarrow> string" where
  "strip s = rev (dropWhile is_space (rev (dropWhile is_space s)))"

text \<open>\<open>sep.join(parts)\<close>\<close>

fun join :: "string \<Rightarrow> string list \<Rightarrow> string" where
  "join sep [] = []"
| "join sep [p] = p"
| "join sep (p # q # ps) = p @ sep @ join sep (q # ps)"

text \<open>\<open>sub in s\<close> on strings: \<open>sub\<close> occurs in \<open>s\<close> as a contiguous run.\<close>

fun contains :: "string \<Rightarrow> string \<Rightarrow> bool" where
  "contains [] sub = (sub = [])"
| "contains (c # cs) sub = (prefix sub (c # cs) \<or> contains cs sub)"

text \<open>\<open>s.replace(" ", "_")\<close>\<close>

definition replace_space :: "string \<Rightarrow> string" where
  "replace_space s = map (\<lambda>c. if c = CHR '' '' then CHR ''_'' else c) s"

section \<open>JSON values\<close>

text \<open>
  What \<open>json.loads\<close> returns: \<open>None\<close>, a bool, an int, a float, a str, a list or a
  dict with string keys. A dict is an association list in insertion order. A float is
  carried as the real number it denotes; the code does nothing with a number but pass
  it to \<open>str\<close>.
\<close>

datatype json =
    JNull
  | JBool bool
  | JInt int
  | JFloat real
  | JStr string
  | JArr "json list"
  | JObj "(string \<times> json) list"

text \<open>\<open>isinstance(v, dict)\<close> and \<open>isinstance(v, (list, dict))\<close>\<close>

fun is_dict :: "json \<Rightarrow> bool" where
  "is_dict (JObj kvs) = True"
| "is_dict v = False"

fun is_list_or_dict :: "json \<Rightarrow> bool" where
  "is_list_or_dict (JArr xs) = True"
| "is_list_or_dict (JObj kvs) = True"
| "is_list_or_dict v = False"

section \<open>Array scorer\<close>

definition strong :: "string list" where
  "strong =
     [''bibno'', ''bib_no'', ''bib'', ''bib_number'', ''finished_time'', ''finish_time'',
      ''chip_time'', ''gun_time'', ''net_time'', ''pace'', ''rank'', ''overall_rank'',
      ''bracket_rank'', ''category_rank'', ''gender_rank'']"

definition moderate :: "string list" where
  "moderate =
     [''first_name'', ''last_name'', ''name'', ''full_name'', ''runner_name'',
      ''participant'', ''age'', ''gender'', ''sex'', ''category'', ''race_name'',
      ''race_id'', ''club'', ''city'', ''country'', ''nationality'']"

text \<open>
  \<open>score_result_array(arr)\<close>: 0 for an empty array or one whose first element is not a
  dict; otherwise the two loops over \<open>strong\<close> and \<open>moderate\<close> against the lower-cased
  keys of \<open>arr[0]\<close>, then the two length bonuses.
\<close>

definition score_result_array :: "json list \<Rightarrow> int" where
  "score_result_array arr =
     (case arr of
        [] \<Rightarrow> 0
      | JObj sample # _ \<Rightarrow>
          (let keys = set (map (\<lambda>(k, _). lower k) sample);
               score = 0;
               score = fold (\<lambda>s score. if s \<in> keys then score + 2 else score) strong score;
               score = fold (\<lambda>m score. if m \<in> keys then score + 1 else score) moderate score;
               score = (if length arr > 20 then score + 2 else score);
               score = (if length arr > 100 then score + 2 else score)
           in score)
      | _ \<Rightarrow> 0)"

section \<open>Candidate array finder\<close>

text \<open>
  \<open>find_result_arrays(data, depth=0, max_depth=5)\<close>. The recursion is bounded by the
  depth counter, which is also its termination measure. The candidate test reads
  \<open>data[0]\<close> only after \<open>len(data) > 0\<close>; the loop over \<open>data.items()\<close> recurses into
  the values that are lists or dicts, in insertion order.
\<close>

function find_result_arrays :: "json \<Rightarrow> int \<Rightarrow> int \<Rightarrow> json list list" where
  "find_result_arrays data depth max_depth =
     (if depth > max_depth then []
      else
        (case data of
           JArr arr \<Rightarrow>
             (if length arr > 0 then
                (if is_dict (arr ! 0) then
                   (if score_result_array arr > 2 then [arr] else [])
                 else [])
              else [])
         | _ \<Rightarrow> [])
        @
        (case data of
           JObj kvs \<Rightarrow>
             concat (map (\<lambda>(key, v).
               if is_list_or_dict v then find_result_arrays v (depth + 1) max_depth
               else []) kvs)
         | _ \<Rightarrow> []))"
  by pat_completeness auto
termination
  by (relation "measure (\<lambda>(data, depth, max_depth). nat (max_depth + 1 - depth))") auto

declare find_result_arrays.simps [simp del]

section \<open>Row normalizer\<close>

text \<open>A normalized row is a Python dict from field name to string, in insertion order.\<close>

type_synonym row = "(string \<times> string) list"

text \<open>\<open>k in d\<close> and \<open>d.get(k, default)\<close> on a dict.\<close>

definition has_key :: "('k \<times> 'v) list \<Rightarrow> 'k \<Rightarrow> bool" where
  "has_key d k = (k \<in> fst ` set d)"

definition get_default :: "('k \<times> 'v) list \<Rightarrow> 'k \<Rightarrow> 'v \<Rightarrow> 'v" where
  "get_default d k dflt = (case map_of d k of None \<Rightarrow> dflt | Some v \<Rightarrow> v)"

definition FIELD_MAP :: "(string \<times> string) list" where
  "FIELD_MAP =
     [(''bibno'', ''bib''), (''bib_no'', ''bib''), (''bib_number'', ''bib''),
      (''bibnumber'', ''bib''), (''race_number'', ''bib''), (''start_number'', ''bib''),
      (''first_name'', ''first_name''), (''firstname'', ''first_name''),
      (''last_name'', ''last_name''), (''lastname'', ''last_name''),
      (''full_name'', ''full_name''), (''fullname'', ''full_name''), (''name'', ''full_name''),
      (''runner_name'', ''full_name''), (''participant_name'', ''full_name''),
      (''finished_time'', ''chip_time''), (''finish_time'', ''chip_time''),
      (''chip_time'', ''chip_time''), (''net_time'', ''chip_time''), (''chiptime'', ''chip_time''),
      (''gun_time'', ''gun_time''), (''guntime'', ''gun_time''), (''gross_time'', ''gun_time''),
      (''chip_pace'', ''pace''), (''pace'', ''pace''), (''avg_pace'', ''pace''),
      (''gun_pace'', ''gun_pace''),
      (''overall_rank'', ''overall_rank''), (''overallrank'', ''overall_rank''),
      (''bracket_rank'', ''category_rank''), (''category_rank'', ''category_rank''),
      (''gender_rank'', ''gender_rank''),
      (''gender'', ''gender''), (''sex'', ''gender''),
      (''age'', ''age''), (''age_group'', ''age_group''), (''agegroup'', ''age_group''),
      (''category'', ''category''), (''race_name'', ''race_category''),
      (''club'', ''club''), (''team'', ''club''), (''team_name'', ''club''),
      (''city'', ''city''), (''country'', ''country''), (''nationality'', ''nationality'')]"

text \<open>
  The loop of \<open>normalize_result_row\<close> over \<open>item.items()\<close>, threading \<open>row\<close>. The
  parameter \<open>str_of\<close> is Python's built-in \<open>str\<close> on the values that reach it (every
  JSON value but \<open>None\<close> and a dict); the properties below hold for any such function.
  The source also computes \<open>has_timing\<close> and never reads it; it is left out.
\<close>

fun normalize_fields :: "(json \<Rightarrow> string) \<Rightarrow> (string \<times> json) list \<Rightarrow> row \<Rightarrow> row" where
  "normalize_fields str_of [] row = row"
| "normalize_fields str_of ((orig_key, v) # rest) row =
     (case map_of FIELD_MAP (lower orig_key) of
        None \<Rightarrow> normalize_fields str_of rest row
      | Some normalized_key \<Rightarrow>
          (if normalized_key = [] then normalize_fields str_of rest row
           else if is_dict v then normalize_fields str_of rest row
           else normalize_fields str_of rest
                  (AList.update normalized_key (if v = JNull then [] else str_of v) row)))"

definition normalize_result_row :: "(json \<Rightarrow> string) \<Rightarrow> (string \<times> json) list \<Rightarrow> row option" where
  "normalize_result_row str_of item =
     (let row = normalize_fields str_of item [];
          has_identity = list_ex (has_key row) [''bib'', ''full_name'', ''first_name'']
      in if has_identity then
           (if \<not> has_key row ''full_name'' \<and> has_key row ''first_name'' then
              (let parts = [get_default row ''first_name'' [], get_default row ''last_name'' []]
               in Some (AList.update ''full_name''
                          (strip (join '' '' (filter (\<lambda>p. p \<noteq> []) parts))) row))
            else Some row)
         else None)"

section \<open>Deduplicator\<close>

text \<open>\<open>row.get("bib", "") or row.get("full_name", "")\<close>\<close>

definition dedup_key :: "row \<Rightarrow> string" where
  "dedup_key row =
     (if get_default row ''bib'' [] \<noteq> [] then get_default row ''bib'' []
      else get_default row ''full_name'' [])"

text \<open>The loop of \<open>deduplicate_results\<close>, threading \<open>seen\<close> and \<open>unique\<close>.\<close>

fun dedup_loop :: "row list \<Rightarrow> string set \<Rightarrow> row list \<Rightarrow> row list" where
  "dedup_loop [] seen unique = unique"
| "dedup_loop (row # rest) seen unique =
     (let key = dedup_key row
      in if key \<noteq> [] \<and> key \<notin> seen then dedup_loop rest (insert key seen) (unique @ [row])
         else dedup_loop rest seen unique)"

definition deduplicate_results :: "row list \<Rightarrow> row list" where
  "deduplicate_results results = dedup_loop results {} []"

section \<open>Extraction from captured responses\<close>

record api_response =
  resp_url :: string
  resp_status :: int
  resp_data :: json
  resp_size :: nat

text \<open>
  The three extractors share their inner loops: for every candidate array of a
  response and every item of it that is a dict and passes the platform's test,
  normalize the item and append the row if it is a non-empty dict.
\<close>

definition row_of_item :: "(json \<Rightarrow> string) \<Rightarrow> ((string \<times> json) list \<Rightarrow> bool) \<Rightarrow> json \<Rightarrow> row list" where
  "row_of_item str_of keep item =
     (case item of
        JObj kvs \<Rightarrow>
          (if keep kvs then
             (case normalize_result_row str_of kvs of
                None \<Rightarrow> []
              | Some row \<Rightarrow> if row \<noteq> [] then [row] else [])
           else [])
      | _ \<Rightarrow> [])"

definition rows_of_array :: "(json \<Rightarrow> string) \<Rightarrow> ((string \<times> json) list \<Rightarrow> bool) \<Rightarrow> json list \<Rightarrow> row list" where
  "rows_of_array str_of keep arr = concat (map (row_of_item str_of keep) arr)"

definition collect_rows :: "(json \<Rightarrow> string) \<Rightarrow> ((string \<times> json) list \<Rightarrow> bool) \<Rightarrow> api_response list \<Rightarrow> row list" where
  "collect_rows str_of keep api_responses =
     concat (map (\<lambda>resp.
       concat (map (rows_of_array str_of keep) (find_result_arrays (resp_data resp) 0 5)))
       api_responses)"

definition extract_sts_data :: "(json \<Rightarrow> string) \<Rightarrow> api_response list \<Rightarrow> row list" where
  "extract_sts_data str_of api_responses =
     deduplicate_results
       (collect_rows str_of
          (\<lambda>item. list_ex (has_key item)
             [''bibno'', ''bib_no'', ''first_name'', ''finished_time'', ''gun_time''])
          api_responses)"

definition extract_mysamay_data :: "(json \<Rightarrow> string) \<Rightarrow> api_response list \<Rightarrow> row list" where
  "extract_mysamay_data str_of api_responses =
     deduplicate_results (collect_rows str_of (\<lambda>item. True) api_responses)"

text \<open>
  \<open>sorted(api_responses, key=size, reverse=True)\<close> is stable: responses of equal size
  keep their order.
\<close>

definition extract_generic_data :: "(json \<Rightarrow> string) \<Rightarrow> api_response list \<Rightarrow> row list" where
  "extract_generic_data str_of api_responses =
     (let sorted_responses = rev (sort_key resp_size (rev api_responses))
      in deduplicate_results (collect_rows str_of (\<lambda>item. True) sorted_responses))"

section \<open>DOM table fallback\<close>

text \<open>
  A rendered table as the queries of \<open>scrape_dom_table\<close> see it: the \<open>tr\<close> rows of the
  table, each the \<open>th\<close> and \<open>td\<close> cells under it in document order with their inner
  text. The header row is read through \<open>"th, td"\<close>, a data row through \<open>"td"\<close> alone.
\<close>

datatype cell_tag = Th | Td

type_synonym cell = "cell_tag \<times> string"
type_synonym table_row = "cell list"
type_synonym table = "table_row list"

definition results_keywords :: "string list" where
  "results_keywords = [''bib'', ''name'', ''time'', ''finish'', ''rank'', ''pace'', ''position'']"

text \<open>The \<open>else\<close> branch of the header loop: the cascade of substring tests.\<close>

definition fuzzy_match :: "string \<Rightarrow> string option" where
  "fuzzy_match h =
     (if contains h ''bib'' then Some ''bib''
      else if contains h ''name'' then Some ''full_name''
      else if contains h ''finish'' \<or> contains h ''chip'' \<or> contains h ''net'' then Some ''chip_time''
      else if contains h ''gun'' \<or> contains h ''gross'' then Some ''gun_time''
      else if contains h ''rank'' \<or> contains h ''pos'' then
        (if contains h ''overall'' then Some ''overall_rank''
         else if contains h ''gender'' \<or> contains h ''category'' then Some ''category_rank''
         else Some ''overall_rank'')
      else if contains h ''pace'' then Some ''pace''
      else if contains h ''age'' then Some ''age_group''
      else if contains h ''gender'' \<or> contains h ''sex'' then Some ''gender''
      else if contains h ''category'' \<or> contains h ''race'' then Some ''category''
      else if contains h ''club'' \<or> contains h ''team'' then Some ''club''
      else None)"

text \<open>
  One round of the header loop: the first entry of \<open>FIELD_MAP\<close>, in its order, whose
  key occurs in the underscored header, else the cascade.
\<close>

definition map_header :: "string \<Rightarrow> string option" where
  "map_header h =
     (case find (\<lambda>(orig, canon). contains (replace_space h) orig) FIELD_MAP of
        Some (orig, canon) \<Rightarrow> Some canon
      | None \<Rightarrow> fuzzy_match h)"

fun build_header_map :: "nat \<Rightarrow> string list \<Rightarrow> (nat \<times> string) list" where
  "build_header_map i [] = []"
| "build_header_map i (h # hs) =
     (case map_header h of
        None \<Rightarrow> build_header_map (Suc i) hs
      | Some canon \<Rightarrow> (i, canon) # build_header_map (Suc i) hs)"

text \<open>The loop over \<open>enumerate(cells)\<close> of one data row, threading \<open>result_row\<close>.\<close>

fun extract_cells :: "(nat \<times> string) list \<Rightarrow> nat \<Rightarrow> string list \<Rightarrow> row \<Rightarrow> row" where
  "extract_cells header_map i [] result_row = result_row"
| "extract_cells header_map i (text # cells) result_row =
     (case map_of header_map i of
        None \<Rightarrow> extract_cells header_map (Suc i) cells result_row
      | Some canon \<Rightarrow>
          extract_cells header_map (Suc i) cells (AList.update canon (strip text) result_row))"

definition extract_data_rows :: "(nat \<times> string) list \<Rightarrow> table_row list \<Rightarrow> row list" where
  "extract_data_rows header_map data_rows =
     concat (map (\<lambda>r.
       let cells = map snd (filter (\<lambda>(tag, text). tag = Td) r)
       in if length cells = 0 then []
          else (let result_row = extract_cells header_map 0 cells []
                in if result_row \<noteq> [] then [result_row] else [])) data_rows)"

definition scrape_table :: "table \<Rightarrow> row list" where
  "scrape_table rows =
     (if length rows < 3 then []
      else
        (let header_row = rows ! 0;
             headers = map (\<lambda>(tag, text). lower (strip text)) header_row
         in if headers = [] then []
            else
              (let header_text = join '' '' headers
               in if \<not> list_ex (\<lambda>kw. contains header_text kw) results_keywords then []
                  else extract_data_rows (build_header_map 0 headers) (tl rows))))"

text \<open>
  \<open>tables\<close> are the tables of the page; a page on which no table appears in time
  returns no rows, as the empty list of tables does.
\<close>

definition scrape_dom_table :: "table list \<Rightarrow> row list" where
  "scrape_dom_table tables = concat (map scrape_table tables)"

section \<open>The pipeline\<close>

text \<open>
  \<open>intercept_api_data\<close> after the browser has done its work: \<open>load_ok\<close> says that loading
  and driving the page raised nothing, \<open>api_responses\<close> are the captured responses and
  \<open>tables\<close> the tables of the rendered page. The value returned is what \<open>run_agent\<close>
  hands to \<open>write_csv\<close>.
\<close>

text \<open>The platform-specific extraction strategies, selected by \<open>platform_key\<close>.\<close>

definition platform_extract :: "(json \<Rightarrow> string) \<Rightarrow> string \<Rightarrow> api_response list \<Rightarrow> row list" where
  "platform_extract str_of platform_key api_responses =
     (if platform_key = ''sts'' then extract_sts_data str_of api_responses
      else if platform_key = ''mysamay'' then extract_mysamay_data str_of api_responses
      else extract_generic_data str_of api_responses)"

definition intercept_api_data ::
  "(json \<Rightarrow> string) \<Rightarrow> string \<Rightarrow> bool \<Rightarrow> api_response list \<Rightarrow> table list \<Rightarrow> row list" where
  "intercept_api_data str_of platform_key load_ok api_responses tables =
     (if load_ok then
        (let captured_data = platform_extract str_of platform_key api_responses
         in if captured_data = [] then scrape_dom_table tables else captured_data)
      else scrape_dom_table tables)"

section \<open>Output columns\<close>

definition COLUMN_ORDER :: "string list" where
  "COLUMN_ORDER =
     [''bib'', ''full_name'', ''first_name'', ''last_name'', ''gender'', ''age_group'',
      ''category'', ''race_category'', ''club'', ''city'', ''country'', ''nationality'',
      ''chip_time'', ''gun_time'', ''pace'', ''gun_pace'',
      ''overall_rank'', ''category_rank'', ''gender_rank'']"

section \<open>Notions of the specification\<close>

text \<open>The contribution of the array's length alone, as the spec words it.\<close>

definition size_bonus :: "nat \<Rightarrow> int" where
  "size_bonus n = (if n > 20 then 2 else 0) + (if n > 100 then 2 else 0)"

text \<open>
  A canonical field is populated by a source object when one of its pairs has a key
  whose lower-cased spelling the table maps to the field, and a value that is not a
  nested object.
\<close>

definition populated :: "(string \<times> json) list \<Rightarrow> string \<Rightarrow> bool" where
  "populated item k =
     list_ex (\<lambda>(orig_key, v). map_of FIELD_MAP (lower orig_key) = Some k \<and> \<not> is_dict v) item"

text \<open>The strings the pairs of the object store under a field, in order; the last one stays.\<close>

definition mapped_values :: "(json \<Rightarrow> string) \<Rightarrow> (string \<times> json) list \<Rightarrow> string \<Rightarrow> string list" where
  "mapped_values str_of item k =
     map (\<lambda>(orig_key, v). if v = JNull then [] else str_of v)
       (filter (\<lambda>(orig_key, v). map_of FIELD_MAP (lower orig_key) = Some k \<and> \<not> is_dict v) item)"

definition field_value :: "(json \<Rightarrow> string) \<Rightarrow> (string \<times> json) list \<Rightarrow> string \<Rightarrow> string" where
  "field_value str_of item k =
     (case mapped_values str_of item k of [] \<Rightarrow> [] | _ # _ \<Rightarrow> last (mapped_values str_of item k))"

text \<open>
  The non-empty ones of \<open>first_name\<close> and \<open>last_name\<close> joined with a single space;
  and that string trimmed.
\<close>

definition joined_names :: "string \<Rightarrow> string \<Rightarrow> string" where
  "joined_names first_name last_name =
     (if first_name = [] then last_name
      else if last_name = [] then first_name
      else first_name @ '' '' @ last_name)"

definition join_names :: "string \<Rightarrow> string \<Rightarrow> string" where
  "join_names first_name last_name =
     strip (if first_name = [] then last_name
            else if last_name = [] then first_name
            else first_name @ '' '' @ last_name)"

text \<open>
  The values reachable from a JSON value through at most \<open>n\<close> steps, each from an
  object to one of its values, in depth-first order. No step enters an array.
\<close>

fun object_values :: "nat \<Rightarrow> json \<Rightarrow> json list" where
  "object_values 0 v = [v]"
| "object_values (Suc n) v =
     v # (case v of JObj kvs \<Rightarrow> concat (map (\<lambda>(k, x). object_values n x) kvs) | _ \<Rightarrow> [])"

text \<open>A value is emitted when it is a non-empty array of score above 2 whose first element is an object.\<close>

definition candidate :: "json \<Rightarrow> json list list" where
  "candidate v =
     (case v of
        JArr arr \<Rightarrow>
          (if arr \<noteq> [] \<and> is_dict (hd arr) \<and> score_result_array arr > 2 then [arr] else [])
      | _ \<Rightarrow> [])"

text \<open>
  Python's \<open>str\<close> on a str and on a bool, for the concrete examples below; they use no
  other value.
\<close>

fun str_of_scalar :: "json \<Rightarrow> string" where
  "str_of_scalar (JStr s) = s"
| "str_of_scalar (JBool b) = (if b then ''True'' else ''False'')"

text \<open>
  The rows a platform's extractor has accumulated, in processing order, before it
  calls \<open>deduplicate_results\<close>.
\<close>

definition processed_rows :: "(json \<Rightarrow> string) \<Rightarrow> string \<Rightarrow> api_response list \<Rightarrow> row list" where
  "processed_rows str_of platform_key api_responses =
     (if platform_key = ''sts'' then
        collect_rows str_of
          (\<lambda>item. list_ex (has_key item)
             [''bibno'', ''bib_no'', ''first_name'', ''finished_time'', ''gun_time''])
          api_responses
      else if platform_key = ''mysamay'' then collect_rows str_of (\<lambda>item. True) api_responses
      else collect_rows str_of (\<lambda>item. True) (rev (sort_key resp_size (rev api_responses))))"

text \<open>Concrete inputs for the examples: a captured response and a rendered table.\<close>

definition sample_response :: api_response where
  "sample_response =
     \<lparr>resp_url = ''https://example.org/api/results'', resp_status = 200,
      resp_data = JObj [(''data'', JArr
        [JObj [(''bibno'', JStr ''101''), (''first_name'', JStr ''Asha''), (''last_name'', JStr ''Rao''),
               (''finished_time'', JStr ''00:45:12'')],
         JObj [(''bibno'', JStr ''101''), (''full_name'', JStr ''Dev Kumar''),
               (''chip_time'', JStr ''00:46:01'')]])],
      resp_size = 200\<rparr>"

definition results_table :: table where
  "results_table =
     [[(Th, ''Bib''), (Th, ''Name''), (Th, ''Finish Time'')],
      [(Td, ''55''), (Td, ''Ravi Shah''), (Td, ''01:02:33'')],
      [(Td, ''56''), (Td, ''Meera Nair''), (Td, ''01:05:10'')]]"

section \<open>Properties of the scorer\<close>

lemma fold_cond_add:
  "distinct xs \<Longrightarrow>
     fold (\<lambda>s (score::int). if s \<in> K then score + c else score) xs a =
       a + c * int (card (set xs \<inter> K))"
proof (induction xs arbitrary: a)
  case Nil
  then show ?case by simp
next
  case (Cons x xs)
  have fin: "finite (set xs \<inter> K)" by simp
  show ?case
  proof (cases "x \<in> K")
    case True
    have "set (x # xs) \<inter> K = insert x (set xs \<inter> K)" using True by auto
    moreover have "x \<notin> set xs \<inter> K" using Cons.prems by simp
    ultimately have "card (set (x # xs) \<inter> K) = Suc (card (set xs \<inter> K))"
      using fin by simp
    then show ?thesis using Cons True by (simp add: algebra_simps)
  next
    case False
    have "set (x # xs) \<inter> K = set xs \<inter> K" using False by auto
    then show ?thesis using Cons False by simp
  qed
qed

lemma distinct_strong: "distinct strong"
  by (simp add: strong_def)

lemma distinct_moderate: "distinct moderate"
  by (simp add: moderate_def)

lemma score_result_array_Cons:
  "score_result_array (JObj sample # rest) =
     2 * int (card (set strong \<inter> lower ` fst ` set sample))
     + int (card (set moderate \<inter> lower ` fst ` set sample))
     + size_bonus (Suc (length rest))"
proof -
  have keys: "(\<lambda>(k, _). lower k) ` set sample = lower ` fst ` set sample"
    by force
  show ?thesis
    unfolding score_result_array_def
    by (simp add: Let_def keys size_bonus_def
        fold_cond_add [OF distinct_strong] fold_cond_add [OF distinct_moderate])
qed

text \<open>
  C5: for an array whose first element is an object, the score is 2 for each strong key
  plus 1 for each moderate key among the lower-cased top-level keys of that first
  element, plus a bonus that depends on the length of the array alone; the elements
  after the first do not matter beyond their number.
\<close>

theorem score_result_array_first_element:
  "score_result_array (JObj sample # rest) =
     2 * int (card (set strong \<inter> lower ` fst ` set sample))
     + int (card (set moderate \<inter> lower ` fst ` set sample))
     + size_bonus (length (JObj sample # rest))
   \<and> (length rest' = length rest \<longrightarrow>
        score_result_array (JObj sample # rest') = score_result_array (JObj sample # rest))"
  by (simp add: score_result_array_Cons)

theorem score_result_array_first_element_witness:
  "length [JStr ''x'', JInt 5] = length [JNull, JObj [(''bib'', JStr ''9'')]]
   \<and> score_result_array (JObj [(''BibNo'', JStr ''101''), (''Club'', JNull)] # [JStr ''x'', JInt 5]) =
       score_result_array (JObj [(''BibNo'', JStr ''101''), (''Club'', JNull)] # [JNull, JObj [(''bib'', JStr ''9'')]])
   \<and> score_result_array (JObj [(''BibNo'', JStr ''101''), (''Club'', JNull)] # [JNull, JObj [(''bib'', JStr ''9'')]]) = 3"
proof -
  have len: "length [JStr ''x'', JInt 5] = length [JNull, JObj [(''bib'', JStr ''9'')]]"
    by simp
  have val: "score_result_array (JObj [(''BibNo'', JStr ''101''), (''Club'', JNull)] # [JNull, JObj [(''bib'', JStr ''9'')]]) = 3"
    by code_simp
  have eq: "score_result_array (JObj [(''BibNo'', JStr ''101''), (''Club'', JNull)] # [JStr ''x'', JInt 5]) =
       score_result_array (JObj [(''BibNo'', JStr ''101''), (''Club'', JNull)] # [JNull, JObj [(''bib'', JStr ''9'')]])"
    using score_result_array_first_element
         [where sample = "[(''BibNo'', JStr ''101''), (''Club'', JNull)]"
            and rest = "[JNull, JObj [(''bib'', JStr ''9'')]]"
            and rest' = "[JStr ''x'', JInt 5]"] len
    by (elim conjE impE)
  show ?thesis using len val eq by (intro conjI)
qed

section \<open>Properties of the deduplicator\<close>

lemma dedup_loop_acc: "dedup_loop rs seen unique = unique @ dedup_loop rs seen []"
proof (induction rs arbitrary: seen unique)
  case Nil
  then show ?case by simp
next
  case (Cons r rs)
  show ?case
  proof (cases "dedup_key r \<noteq> [] \<and> dedup_key r \<notin> seen")
    case True
    then show ?thesis
      using Cons.IH [of "insert (dedup_key r) seen" "unique @ [r]"]
            Cons.IH [of "insert (dedup_key r) seen" "[r]"]
      by (simp add: Let_def)
  next
    case False
    then show ?thesis using Cons.IH [of seen unique] by (auto simp: Let_def)
  qed
qed

lemma dedup_loop_Cons:
  "dedup_loop (r # rs) seen [] =
     (if dedup_key r \<noteq> [] \<and> dedup_key r \<notin> seen
      then r # dedup_loop rs (insert (dedup_key r) seen) []
      else dedup_loop rs seen [])"
  using dedup_loop_acc [of rs "insert (dedup_key r) seen" "[r]"]
  by (simp add: Let_def)

declare dedup_loop.simps(2) [simp del]

lemma dedup_loop_set:
  "r \<in> set (dedup_loop rs seen []) \<Longrightarrow>
     r \<in> set rs \<and> dedup_key r \<noteq> [] \<and> dedup_key r \<notin> seen"
proof (induction rs arbitrary: seen)
  case Nil
  then show ?case by simp
next
  case (Cons x rs)
  then show ?case
    by (fastforce simp: dedup_loop_Cons split: if_splits)
qed

lemma dedup_loop_distinct: "distinct (map dedup_key (dedup_loop rs seen []))"
proof (induction rs arbitrary: seen)
  case Nil
  then show ?case by simp
next
  case (Cons x rs)
  then show ?case
    by (auto simp: dedup_loop_Cons dest: dedup_loop_set)
qed

lemma dedup_loop_subseq: "subseq (dedup_loop rs seen []) rs"
  by (induction rs arbitrary: seen) (auto simp: dedup_loop_Cons)

lemma dedup_loop_fixed:
  "distinct (map dedup_key xs) \<Longrightarrow> [] \<notin> dedup_key ` set xs \<Longrightarrow>
     dedup_key ` set xs \<inter> seen = {} \<Longrightarrow> dedup_loop xs seen [] = xs"
proof (induction xs arbitrary: seen)
  case Nil
  then show ?case by simp
next
  case (Cons x xs)
  have k: "dedup_key x \<noteq> []" "dedup_key x \<notin> seen" using Cons.prems by auto
  have "dedup_key ` set xs \<inter> insert (dedup_key x) seen = {}"
    using Cons.prems by auto
  then have "dedup_loop xs (insert (dedup_key x) seen) [] = xs"
    using Cons.IH Cons.prems by simp
  then show ?case using k by (simp add: dedup_loop_Cons)
qed



lemma deduplicate_results_idem:
  "deduplicate_results (deduplicate_results rs) = deduplicate_results rs"
  unfolding deduplicate_results_def
  by (rule dedup_loop_fixed) (auto simp: dedup_loop_distinct dest: dedup_loop_set)

section \<open>Properties of trimming\<close>

lemma rev_dropWhile_split:
  "xs = rev (dropWhile P (rev xs)) @ rev (takeWhile P (rev xs))"
proof -
  have "rev (takeWhile P (rev xs) @ dropWhile P (rev xs)) = rev (rev xs)"
    by (simp only: takeWhile_dropWhile_id)
  then show ?thesis by (simp only: rev_append rev_rev_ident)
qed

lemma strip_split:
  "\<exists>suf. dropWhile is_space s = strip s @ suf \<and> list_all is_space suf"
proof -
  have "dropWhile is_space s =
      strip s @ rev (takeWhile is_space (rev (dropWhile is_space s)))"
    unfolding strip_def by (rule rev_dropWhile_split)
  moreover have "list_all is_space (rev (takeWhile is_space (rev (dropWhile is_space s))))"
    by (auto simp: list_all_iff dest: set_takeWhileD)
  ultimately show ?thesis by blast
qed

lemma strip_decompose:
  "\<exists>pre suf. s = pre @ strip s @ suf \<and> list_all is_space pre \<and> list_all is_space suf"
proof -
  obtain suf where d: "dropWhile is_space s = strip s @ suf" and suf: "list_all is_space suf"
    using strip_split by blast
  have "s = takeWhile is_space s @ dropWhile is_space s" by simp
  then have s: "s = takeWhile is_space s @ strip s @ suf" by (simp only: d)
  have pre: "list_all is_space (takeWhile is_space s)"
    by (auto simp: list_all_iff dest: set_takeWhileD)
  from s pre suf show ?thesis by blast
qed

lemma strip_ends:
  "strip s = [] \<or> (\<not> is_space (hd (strip s)) \<and> \<not> is_space (last (strip s)))"
proof (cases "strip s = []")
  case True
  then show ?thesis by simp
next
  case False
  obtain suf where d: "dropWhile is_space s = strip s @ suf"
    using strip_split by blast
  have e: "dropWhile is_space (rev (dropWhile is_space s)) \<noteq> []"
    using False by (simp add: strip_def)
  have "last (strip s) = hd (dropWhile is_space (rev (dropWhile is_space s)))"
    using e by (simp add: strip_def last_rev)
  moreover have "\<not> is_space (hd (dropWhile is_space (rev (dropWhile is_space s))))"
    using e by (rule hd_dropWhile)
  ultimately have l: "\<not> is_space (last (strip s))" by simp
  have dne: "dropWhile is_space s \<noteq> []" using False d by simp
  have "hd (dropWhile is_space s) = hd (strip s)"
    unfolding d using False by simp
  moreover have "\<not> is_space (hd (dropWhile is_space s))" using dne by (rule hd_dropWhile)
  ultimately have h: "\<not> is_space (hd (strip s))" by simp
  from h l show ?thesis by simp
qed

lemma is_space_code_points:
  "is_space c \<longleftrightarrow> (of_char c :: nat) \<in> {9, 10, 11, 12, 13, 28, 29, 30, 31, 32, 133, 160}"
proof -
  have eq: "(c = d) = ((of_char c :: nat) = of_char d)" for d
    by simp
  show ?thesis
    unfolding is_space_def by (simp add: eq)
qed

lemma join_names_joined: "join_names f l = strip (joined_names f l)"
  by (simp add: join_names_def joined_names_def)

section \<open>Properties of the normalizer\<close>

lemma populated_iff_values: "populated item k \<longleftrightarrow> mapped_values s item k \<noteq> []"
  by (auto simp: populated_def mapped_values_def list_ex_iff filter_empty_conv)

lemma has_key_map_of: "has_key d k \<longleftrightarrow> map_of d k \<noteq> None"
  by (simp add: has_key_def map_of_eq_None_iff)

lemma normalize_fields_lookup:
  "k \<noteq> [] \<Longrightarrow>
     map_of (normalize_fields s item row) k =
       (if populated item k then Some (field_value s item k) else map_of row k)"
proof (induction item arbitrary: row)
  case Nil
  then show ?case by (simp add: populated_def)
next
  case (Cons p item)
  obtain orig_key v where p: "p = (orig_key, v)" by (cases p)
  let ?hit = "map_of FIELD_MAP (lower orig_key) = Some k \<and> \<not> is_dict v"
  let ?val = "if v = JNull then [] else s v"
  have pop: "populated (p # item) k \<longleftrightarrow> ?hit \<or> populated item k"
    by (simp add: populated_def p)
  have mv: "mapped_values s (p # item) k = (if ?hit then [?val] else []) @ mapped_values s item k"
    by (simp add: mapped_values_def p)
  have fv: "field_value s (p # item) k =
      (if populated item k then field_value s item k else if ?hit then ?val else [])"
    using populated_iff_values [of item k s]
    by (auto simp: field_value_def mv split: list.splits)
  show ?case
  proof (cases ?hit)
    case True
    then have "normalize_fields s (p # item) row =
        normalize_fields s item (AList.update k ?val row)"
      using Cons.prems by (simp add: p)
    then show ?thesis
      using Cons.IH [OF Cons.prems, of "AList.update k ?val row"] True pop fv
      by (simp add: AList.update_conv')
  next
    case False
    have "map_of (normalize_fields s (p # item) row) k = map_of (normalize_fields s item row) k
        \<or> (\<exists>k' val. k' \<noteq> k \<and> normalize_fields s (p # item) row =
              normalize_fields s item (AList.update k' val row))"
      using False by (auto simp: p split: option.splits)
    then show ?thesis
      using Cons.IH [OF Cons.prems] False pop fv
      by (auto simp: AList.update_conv')
  qed
qed

lemma normalize_fields_keys:
  "fst ` set (normalize_fields s item row) \<subseteq> fst ` set row \<union> snd ` set FIELD_MAP"
proof (induction item arbitrary: row)
  case Nil
  then show ?case by simp
next
  case (Cons p item)
  obtain orig_key v where p: "p = (orig_key, v)" by (cases p)
  show ?case
  proof (cases "map_of FIELD_MAP (lower orig_key)")
    case None
    then show ?thesis using Cons.IH [of row] by (simp add: p)
  next
    case (Some nk)
    then have nk: "nk \<in> snd ` set FIELD_MAP"
      by (force dest: map_of_SomeD)
    let ?row' = "AList.update nk (if v = JNull then [] else s v) row"
    have sub: "fst ` set ?row' \<subseteq> fst ` set row \<union> snd ` set FIELD_MAP"
      using nk by (simp add: AList.dom_update)
    have "normalize_fields s (p # item) row = normalize_fields s item row
        \<or> normalize_fields s (p # item) row = normalize_fields s item ?row'"
      using Some by (simp add: p)
    then show ?thesis
    proof
      assume "normalize_fields s (p # item) row = normalize_fields s item row"
      then show ?thesis using Cons.IH [of row] by simp
    next
      assume eq: "normalize_fields s (p # item) row = normalize_fields s item ?row'"
      have "fst ` set (normalize_fields s item ?row') \<subseteq> fst ` set row \<union> snd ` set FIELD_MAP"
        using Cons.IH [of ?row'] sub by blast
      then show ?thesis unfolding eq .
    qed
  qed
qed

lemma normalize_fields_has_key:
  "k \<noteq> [] \<Longrightarrow> has_key (normalize_fields s item []) k \<longleftrightarrow> populated item k"
  by (simp add: has_key_map_of normalize_fields_lookup)

lemma normalize_fields_get:
  "k \<noteq> [] \<Longrightarrow> get_default (normalize_fields s item []) k [] = field_value s item k"
  using populated_iff_values [of item k s]
  by (simp add: get_default_def normalize_fields_lookup field_value_def)

lemma join_nonempty_parts:
  "strip (join '' '' (filter (\<lambda>p. p \<noteq> []) [f, l])) = join_names f l"
  by (simp add: join_names_def)

lemma normalize_result_row_None:
  "normalize_result_row s item = None \<longleftrightarrow>
     \<not> populated item ''bib'' \<and> \<not> populated item ''full_name'' \<and> \<not> populated item ''first_name''"
  by (simp add: normalize_result_row_def Let_def normalize_fields_has_key)

lemma normalize_result_row_synthesized:
  assumes "\<not> populated item ''full_name''" and "populated item ''first_name''"
  shows "normalize_result_row s item =
     Some (AList.update ''full_name''
        (join_names (field_value s item ''first_name'') (field_value s item ''last_name''))
        (normalize_fields s item []))"
  using assms
  by (simp add: normalize_result_row_def Let_def normalize_fields_has_key normalize_fields_get
      join_nonempty_parts del: filter.simps join.simps)

lemma field_map_range: "snd ` set FIELD_MAP \<subseteq> set COLUMN_ORDER \<union> {''age''}"
  by code_simp

lemma full_name_column: "''full_name'' \<in> set COLUMN_ORDER"
  by code_simp

lemma trim_item_populated:
  "\<not> populated [(''First_Name'', JStr '' Asha''), (''last_name'', JStr (''Rao'' @ [CHR 0xA0])),
        (''club'', JNull)] ''full_name''
   \<and> populated [(''First_Name'', JStr '' Asha''), (''last_name'', JStr (''Rao'' @ [CHR 0xA0])),
        (''club'', JNull)] ''first_name''"
  by code_simp

lemma trim_item_row:
  "normalize_result_row str_of_scalar
     [(''First_Name'', JStr '' Asha''), (''last_name'', JStr (''Rao'' @ [CHR 0xA0])),
      (''club'', JNull)] =
   Some [(''first_name'', '' Asha''), (''last_name'', ''Rao'' @ [CHR 0xA0]), (''club'', []),
         (''full_name'', ''Asha Rao'')]"
  by code_simp

lemma trim_item_joined:
  "joined_names
     (field_value str_of_scalar
        [(''First_Name'', JStr '' Asha''), (''last_name'', JStr (''Rao'' @ [CHR 0xA0])),
         (''club'', JNull)] ''first_name'')
     (field_value str_of_scalar
        [(''First_Name'', JStr '' Asha''), (''last_name'', JStr (''Rao'' @ [CHR 0xA0])),
         (''club'', JNull)] ''last_name'')
   = '' '' @ ''Asha Rao'' @ [CHR 0xA0]
   \<and> join_names
     (field_value str_of_scalar
        [(''First_Name'', JStr '' Asha''), (''last_name'', JStr (''Rao'' @ [CHR 0xA0])),
         (''club'', JNull)] ''first_name'')
     (field_value str_of_scalar
        [(''First_Name'', JStr '' Asha''), (''last_name'', JStr (''Rao'' @ [CHR 0xA0])),
         (''club'', JNull)] ''last_name'')
   = ''Asha Rao''"
  by code_simp

lemma rejected_item_unpopulated:
  "\<not> populated [(''club'', JStr ''Runners Co''), (''city'', JStr ''Pune'')] ''bib''
   \<and> \<not> populated [(''club'', JStr ''Runners Co''), (''city'', JStr ''Pune'')] ''full_name''
   \<and> \<not> populated [(''club'', JStr ''Runners Co''), (''city'', JStr ''Pune'')] ''first_name''"
  by code_simp

section \<open>Properties of the candidate array finder\<close>

lemma find_result_arrays_eq:
  "depth \<le> max_depth \<Longrightarrow> n = nat (max_depth - depth) \<Longrightarrow>
     find_result_arrays data depth max_depth = concat (map candidate (object_values n data))"
proof (induction n arbitrary: data depth)
  case 0
  then have d: "depth = max_depth" by simp
  have deeper: "find_result_arrays v (max_depth + 1) max_depth = []" for v
    by (simp add: find_result_arrays.simps)
  have kids0: "concat (map (\<lambda>(key, v). if is_list_or_dict v
          then find_result_arrays v (max_depth + 1) max_depth else []) kvs) = []" for kvs
    by (induction kvs) (auto simp: deeper)
  show ?case
    unfolding d
    by (subst find_result_arrays.simps)
       (simp add: candidate_def hd_conv_nth kids0 split: json.splits)
next
  case (Suc n)
  then have lt: "depth + 1 \<le> max_depth" and n: "n = nat (max_depth - (depth + 1))"
    by simp_all
  have child: "(if is_list_or_dict v then find_result_arrays v (depth + 1) max_depth else [])
      = concat (map candidate (object_values n v))" for v
  proof (cases "is_list_or_dict v")
    case True
    then show ?thesis using Suc.IH [OF lt n] by simp
  next
    case False
    then have "concat (map candidate (object_values n v)) = []"
      by (cases v; cases n) (simp_all add: candidate_def)
    then show ?thesis using False by simp
  qed
  have kids: "concat (map (\<lambda>(key, v). if is_list_or_dict v
          then find_result_arrays v (depth + 1) max_depth else []) kvs)
      = concat (map candidate (concat (map (\<lambda>(k, x). object_values n x) kvs)))" for kvs
    by (induction kvs) (auto simp: child)
  show ?case
    using Suc.prems(1)
    by (subst find_result_arrays.simps)
       (auto simp: candidate_def hd_conv_nth kids split: json.splits)
qed

lemma object_values_JArr: "object_values n (JArr arr) = [JArr arr]"
  by (cases n) simp_all

section \<open>Properties of the DOM table fallback\<close>

lemma scrape_table_short: "length rows < 3 \<Longrightarrow> scrape_table rows = []"
  by (simp add: scrape_table_def)

lemma scrape_table_results:
  "2 \<le> length data_rows \<Longrightarrow>
   map (\<lambda>(tag, text). lower (strip text)) header_row = headers \<Longrightarrow>
   headers \<noteq> [] \<Longrightarrow>
   list_ex (\<lambda>kw. contains (join '' '' headers) kw) results_keywords \<Longrightarrow>
     scrape_table (header_row # data_rows) =
       extract_data_rows (build_header_map 0 headers) data_rows"
  by (auto simp: scrape_table_def Let_def)

lemma scrape_table_no_keyword:
  "map (\<lambda>(tag, text). lower (strip text)) header_row = headers \<Longrightarrow>
   \<not> list_ex (\<lambda>kw. contains (join '' '' headers) kw) results_keywords \<Longrightarrow>
     scrape_table (header_row # data_rows) = []"
  by (simp add: scrape_table_def Let_def)

lemma extract_data_rows_Cons:
  "extract_data_rows hm (r # rs) = extract_data_rows hm [r] @ extract_data_rows hm rs"
  by (simp add: extract_data_rows_def)

lemma results_headers:
  "map (\<lambda>(tag, text). lower (strip text)) [(Th, ''Bib''), (Th, ''Name''), (Th, ''Finish Time'')] =
     [''bib'', ''name'', ''finish time'']"
  by code_simp

lemma results_headers_keyword:
  "list_ex (\<lambda>kw. contains (join '' '' [''bib'', ''name'', ''finish time'']) kw) results_keywords"
  by code_simp

lemma results_header_map:
  "build_header_map 0 [''bib'', ''name'', ''finish time''] =
     [(0, ''bib''), (1, ''full_name''), (2, ''chip_time'')]"
  by code_simp

lemma results_first_row:
  "extract_data_rows [(0, ''bib''), (1, ''full_name''), (2, ''chip_time'')]
     [[(Td, ''55''), (Td, ''Ravi Shah''), (Td, ''01:02:33'')]] =
     [[(''bib'', ''55''), (''full_name'', ''Ravi Shah''), (''chip_time'', ''01:02:33'')]]"
  by code_simp

lemma sponsor_headers:
  "map (\<lambda>(tag, text). lower (strip text)) [(Th, ''Sponsor''), (Th, ''Logo'')] =
     [''sponsor'', ''logo'']"
  by code_simp

lemma sponsor_headers_no_keyword:
  "\<not> list_ex (\<lambda>kw. contains (join '' '' [''sponsor'', ''logo'']) kw) results_keywords"
  by code_simp

lemma scrape_dom_table_results_then_sponsor:
  assumes "further \<noteq> []"
  shows "scrape_dom_table
       [[(Th, ''Bib''), (Th, ''Name''), (Th, ''Finish Time'')]
          # [(Td, ''55''), (Td, ''Ravi Shah''), (Td, ''01:02:33'')] # further,
        [(Th, ''Sponsor''), (Th, ''Logo'')] # body] =
     [(''bib'', ''55''), (''full_name'', ''Ravi Shah''), (''chip_time'', ''01:02:33'')]
       # extract_data_rows [(0, ''bib''), (1, ''full_name''), (2, ''chip_time'')] further"
proof -
  from assms
  have len: "2 \<le> length ([(Td, ''55''), (Td, ''Ravi Shah''), (Td, ''01:02:33'')] # further)"
    by (cases further) simp_all
  have t1: "scrape_table
       ([(Th, ''Bib''), (Th, ''Name''), (Th, ''Finish Time'')]
          # [(Td, ''55''), (Td, ''Ravi Shah''), (Td, ''01:02:33'')] # further) =
      extract_data_rows [(0, ''bib''), (1, ''full_name''), (2, ''chip_time'')]
        ([(Td, ''55''), (Td, ''Ravi Shah''), (Td, ''01:02:33'')] # further)"
    using scrape_table_results [OF len results_headers _ results_headers_keyword]
    by (simp only: results_header_map list.distinct not_False_eq_True)
  have t2: "scrape_table ([(Th, ''Sponsor''), (Th, ''Logo'')] # body) = []"
    by (rule scrape_table_no_keyword [OF sponsor_headers sponsor_headers_no_keyword])
  have "scrape_dom_table
       [[(Th, ''Bib''), (Th, ''Name''), (Th, ''Finish Time'')]
          # [(Td, ''55''), (Td, ''Ravi Shah''), (Td, ''01:02:33'')] # further,
        [(Th, ''Sponsor''), (Th, ''Logo'')] # body] =
      extract_data_rows [(0, ''bib''), (1, ''full_name''), (2, ''chip_time'')]
        ([(Td, ''55''), (Td, ''Ravi Shah''), (Td, ''01:02:33'')] # further)"
    unfolding scrape_dom_table_def by (simp only: list.map concat.simps t1 t2 append_Nil2)
  then show ?thesis
    by (simp only: extract_data_rows_Cons [of _ _ further] results_first_row append_Cons append_Nil)
qed

lemma scrape_dom_table_sponsor:
  "scrape_dom_table [[(Th, ''Sponsor''), (Th, ''Logo'')] # body] = []"
  unfolding scrape_dom_table_def
  by (simp only: list.map concat.simps append_Nil2
      scrape_table_no_keyword [OF sponsor_headers sponsor_headers_no_keyword])

lemma scrape_dom_table_single_row:
  "scrape_dom_table [[header_row, data_row]] = []"
  by (simp add: scrape_dom_table_def scrape_table_short)

section \<open>Properties of the pipeline\<close>

lemma deduplicate_results_set:
  "r \<in> set (deduplicate_results rs) \<Longrightarrow> r \<in> set rs \<and> dedup_key r \<noteq> []"
  unfolding deduplicate_results_def using dedup_loop_set by blast

lemma platform_extract_dedup:
  "\<exists>rows. platform_extract s pk resps = deduplicate_results rows"
  by (auto simp: platform_extract_def extract_sts_data_def extract_mysamay_data_def
      extract_generic_data_def Let_def)

lemma has_key_update: "has_key (AList.update k v d) k' \<longleftrightarrow> k' = k \<or> has_key d k'"
  by (auto simp: has_key_def AList.dom_update)

lemma normalize_result_row_identity:
  "normalize_result_row s item = Some r \<Longrightarrow>
     has_key r ''bib'' \<or> has_key r ''full_name'' \<or> has_key r ''first_name''"
  by (auto simp: normalize_result_row_def Let_def has_key_update split: if_splits)

lemma row_of_item_JObj:
  "row_of_item s keep (JObj kvs) =
     (if keep kvs then
        (case normalize_result_row s kvs of
           None \<Rightarrow> []
         | Some row \<Rightarrow> if row \<noteq> [] then [row] else [])
      else [])"
  unfolding row_of_item_def by (rule json.case)

lemma row_of_item_other: "\<not> is_dict x \<Longrightarrow> row_of_item s keep x = []"
  unfolding row_of_item_def
  by (cases x) (simp_all only: json.case is_dict.simps not_True_eq_False)

lemma row_of_item_normalized:
  assumes "r \<in> set (row_of_item s keep x)"
  shows "\<exists>item. normalize_result_row s item = Some r"
proof (cases x)
  case (JObj kvs)
  have mem: "r \<in> set (if keep kvs then
        (case normalize_result_row s kvs of
           None \<Rightarrow> []
         | Some row \<Rightarrow> if row \<noteq> [] then [row] else [])
      else [])"
    using assms unfolding JObj row_of_item_JObj .
  have "normalize_result_row s kvs = Some r"
  proof (cases "normalize_result_row s kvs")
    case None
    with mem show ?thesis by (cases "keep kvs") simp_all
  next
    case (Some row)
    with mem show ?thesis by (cases "keep kvs"; cases "row = []") simp_all
  qed
  then show ?thesis by blast
qed (use assms in \<open>simp_all add: row_of_item_other\<close>)

lemma rows_of_array_normalized:
  "r \<in> set (rows_of_array s keep arr) \<Longrightarrow> \<exists>item. normalize_result_row s item = Some r"
  by (auto simp: rows_of_array_def dest: row_of_item_normalized)

lemma collect_rows_normalized:
  "r \<in> set (collect_rows s keep resps) \<Longrightarrow> \<exists>item. normalize_result_row s item = Some r"
  by (auto simp: collect_rows_def dest: rows_of_array_normalized)

lemma platform_extract_normalized:
  "r \<in> set (platform_extract s pk resps) \<Longrightarrow> \<exists>item. normalize_result_row s item = Some r"
  by (auto simp: platform_extract_def extract_sts_data_def extract_mysamay_data_def
      extract_generic_data_def Let_def
      dest!: deduplicate_results_set dest: collect_rows_normalized split: if_splits)

lemma extract_data_rows_nonempty:
  "r \<in> set (extract_data_rows hm rows) \<Longrightarrow> r \<noteq> []"
  by (auto simp: extract_data_rows_def Let_def split: if_splits)

lemma scrape_dom_table_nonempty:
  "r \<in> set (scrape_dom_table tables) \<Longrightarrow> r \<noteq> []"
  by (auto simp: scrape_dom_table_def scrape_table_def Let_def
      dest: extract_data_rows_nonempty split: if_splits)

lemma intercept_api_data_cases:
  "intercept_api_data s pk load_ok resps tables =
     (if load_ok \<and> platform_extract s pk resps \<noteq> [] then platform_extract s pk resps
      else scrape_dom_table tables)"
  by (simp add: intercept_api_data_def Let_def)







lemma sample_rows:
  "processed_rows str_of_scalar ''generic'' [sample_response] =
     [[(''bib'', ''101''), (''first_name'', ''Asha''), (''last_name'', ''Rao''),
       (''chip_time'', ''00:45:12''), (''full_name'', ''Asha Rao'')],
      [(''bib'', ''101''), (''full_name'', ''Dev Kumar''), (''chip_time'', ''00:46:01'')]]"
  by code_simp

lemma sample_extract:
  "platform_extract str_of_scalar ''generic'' [sample_response] =
     [[(''bib'', ''101''), (''first_name'', ''Asha''), (''last_name'', ''Rao''),
       (''chip_time'', ''00:45:12''), (''full_name'', ''Asha Rao'')]]"
  by code_simp

lemma sample_dom:
  "scrape_dom_table [results_table] =
     [[(''bib'', ''55''), (''full_name'', ''Ravi Shah''), (''chip_time'', ''01:02:33'')],
      [(''bib'', ''56''), (''full_name'', ''Meera Nair''), (''chip_time'', ''01:05:10'')]]"
  by code_simp




section \<open>The claims on the scorer's length bonus and on the deduplicator\<close>

text \<open>
  C6, as amended: extending a 20-element array whose first element is an object by 21
  or more further elements raises its score by exactly 2 as long as at most 80 elements
  are added, and by exactly 4 from 81 added elements on, since the array is then longer
  than 100 and earns both length bonuses.
\<close>

theorem score_result_array_extend:
  "length rest = 19 \<Longrightarrow> 21 \<le> length ext \<Longrightarrow>
     score_result_array ((JObj sample # rest) @ ext) =
       score_result_array (JObj sample # rest) + (if length ext \<le> 80 then 2 else 4)"
  by (auto simp: score_result_array_Cons size_bonus_def)

theorem score_result_array_extend_witness:
  "length (replicate 19 (JObj [(''bib'', JStr ''1'')])) = 19
   \<and> 21 \<le> length (replicate 21 (JObj [(''bib'', JStr ''1'')]))
   \<and> score_result_array ((JObj [(''bib'', JStr ''1'')] # replicate 19 (JObj [(''bib'', JStr ''1'')]))
         @ replicate 21 (JObj [(''bib'', JStr ''1'')])) =
       score_result_array (JObj [(''bib'', JStr ''1'')] # replicate 19 (JObj [(''bib'', JStr ''1'')])) + 2"
proof -
  have h1: "length (replicate 19 (JObj [(''bib'', JStr ''1'')])) = 19" by simp
  have h2: "21 \<le> length (replicate 21 (JObj [(''bib'', JStr ''1'')]))" by simp
  show ?thesis
    using h1 h2 score_result_array_extend [OF h1 h2, of "[(''bib'', JStr ''1'')]"]
    by simp
qed

text \<open>
  The claim as stated fails: 81 further elements under a 20-element array of score 2
  give score 6, an increase of 4.
\<close>

theorem score_result_array_extend_counterexample:
  "length (replicate 20 (JObj [(''bib'', JStr ''1'')])) = 20
   \<and> 21 \<le> length (replicate 81 (JObj [(''bib'', JStr ''1'')]))
   \<and> score_result_array (replicate 20 (JObj [(''bib'', JStr ''1'')])) = 2
   \<and> score_result_array (replicate 20 (JObj [(''bib'', JStr ''1'')])
        @ replicate 81 (JObj [(''bib'', JStr ''1'')])) = 6"
  by code_simp

text \<open>
  C10: \<open>deduplicate_results\<close> is idempotent, and its output is a subsequence of its
  input.
\<close>

theorem deduplicate_results_idempotent:
  "deduplicate_results (deduplicate_results results) = deduplicate_results results
   \<and> subseq (deduplicate_results results) results"
  by (simp add: deduplicate_results_idem) (simp add: deduplicate_results_def dedup_loop_subseq)

theorem deduplicate_results_idempotent_witness:
  "deduplicate_results
     [[(''bib'', ''1''), (''full_name'', ''A'')], [(''bib'', ''1''), (''full_name'', ''B'')],
      [(''full_name'', ''C'')]] =
     [[(''bib'', ''1''), (''full_name'', ''A'')], [(''full_name'', ''C'')]]
   \<and> deduplicate_results (deduplicate_results
       [[(''bib'', ''1''), (''full_name'', ''A'')], [(''bib'', ''1''), (''full_name'', ''B'')],
        [(''full_name'', ''C'')]]) =
     deduplicate_results
       [[(''bib'', ''1''), (''full_name'', ''A'')], [(''bib'', ''1''), (''full_name'', ''B'')],
        [(''full_name'', ''C'')]]
   \<and> subseq
       (deduplicate_results
          [[(''bib'', ''1''), (''full_name'', ''A'')], [(''bib'', ''1''), (''full_name'', ''B'')],
           [(''full_name'', ''C'')]])
       [[(''bib'', ''1''), (''full_name'', ''A'')], [(''bib'', ''1''), (''full_name'', ''B'')],
        [(''full_name'', ''C'')]]"
proof -
  have val: "deduplicate_results
     [[(''bib'', ''1''), (''full_name'', ''A'')], [(''bib'', ''1''), (''full_name'', ''B'')],
      [(''full_name'', ''C'')]] =
     [[(''bib'', ''1''), (''full_name'', ''A'')], [(''full_name'', ''C'')]]"
    by code_simp
  from deduplicate_results_idempotent
         [of "[[(''bib'', ''1''), (''full_name'', ''A'')], [(''bib'', ''1''), (''full_name'', ''B'')],
               [(''full_name'', ''C'')]]"]
       val
  show ?thesis by (intro conjI) (erule conjE, assumption)+
qed

text \<open>
  C4, as amended: a row whose bib and full_name are both empty (or missing) has an
  empty dedup key, and \<open>deduplicate_results\<close> drops it: it is never in the output.
\<close>

theorem deduplicate_results_drops_empty_key:
  "get_default row ''bib'' [] = [] \<Longrightarrow> get_default row ''full_name'' [] = [] \<Longrightarrow>
     row \<notin> set (deduplicate_results results)"
  using deduplicate_results_set [of row results] by (auto simp: dedup_key_def)

theorem deduplicate_results_drops_empty_key_witness:
  "get_default ([(''bib'', []), (''full_name'', [])] :: row) ''bib'' [] = []
   \<and> get_default ([(''bib'', []), (''full_name'', [])] :: row) ''full_name'' [] = []
   \<and> [(''bib'', []), (''full_name'', [])] \<notin>
       set (deduplicate_results [[(''bib'', []), (''full_name'', [])], [(''bib'', ''7'')]])"
proof -
  have h1: "get_default ([(''bib'', []), (''full_name'', [])] :: row) ''bib'' [] = []"
    by (simp add: get_default_def)
  have h2: "get_default ([(''bib'', []), (''full_name'', [])] :: row) ''full_name'' [] = []"
    by (simp add: get_default_def)
  show ?thesis
    using h1 h2
      deduplicate_results_drops_empty_key
        [OF h1 h2, of "[[(''bib'', []), (''full_name'', [])], [(''bib'', ''7'')]]"]
    by (intro conjI)
qed

text \<open>
  The claim as stated fails: the row with both fields empty is in the input and not in
  the output.
\<close>

theorem deduplicate_results_empty_key_counterexample:
  "map_of [(''bib'', []), (''full_name'', [])] ''bib'' = Some ([] :: string)
   \<and> map_of [(''bib'', []), (''full_name'', [])] ''full_name'' = Some ([] :: string)
   \<and> deduplicate_results [[(''bib'', []), (''full_name'', [])], [(''bib'', ''7'')]] = [[(''bib'', ''7'')]]"
  by code_simp

section \<open>The claims on the pipeline's result sets\<close>




text \<open>
  C1, as amended: every row the JSON path produces has at least one of bib, full_name,
  first_name; every row the DOM fallback produces has at least one mapped field, which
  need not be one of those three; the pipeline's result is one or the other.
\<close>

theorem json_rows_have_identity:
  "(r \<in> set (platform_extract s pk resps) \<longrightarrow>
      has_key r ''bib'' \<or> has_key r ''full_name'' \<or> has_key r ''first_name'')
   \<and> (r \<in> set (scrape_dom_table tables) \<longrightarrow> r \<noteq> [])
   \<and> (intercept_api_data s pk load_ok resps tables = platform_extract s pk resps
        \<or> intercept_api_data s pk load_ok resps tables = scrape_dom_table tables)"
proof (intro conjI impI)
  show "has_key r ''bib'' \<or> has_key r ''full_name'' \<or> has_key r ''first_name''"
    if "r \<in> set (platform_extract s pk resps)"
    using platform_extract_normalized [OF that] normalize_result_row_identity by blast
  show "r \<noteq> []" if "r \<in> set (scrape_dom_table tables)"
    using that by (rule scrape_dom_table_nonempty)
  show "intercept_api_data s pk load_ok resps tables = platform_extract s pk resps
        \<or> intercept_api_data s pk load_ok resps tables = scrape_dom_table tables"
    by (simp add: intercept_api_data_cases)
qed

theorem json_rows_have_identity_witness:
  "[(''bib'', ''101''), (''first_name'', ''Asha''), (''last_name'', ''Rao''),
    (''chip_time'', ''00:45:12''), (''full_name'', ''Asha Rao'')]
     \<in> set (platform_extract str_of_scalar ''generic'' [sample_response])
   \<and> (has_key [(''bib'', ''101''), (''first_name'', ''Asha''), (''last_name'', ''Rao''),
         (''chip_time'', ''00:45:12''), (''full_name'', ''Asha Rao'')] ''bib''
        \<or> has_key [(''bib'', ''101''), (''first_name'', ''Asha''), (''last_name'', ''Rao''),
         (''chip_time'', ''00:45:12''), (''full_name'', ''Asha Rao'')] ''full_name''
        \<or> has_key [(''bib'', ''101''), (''first_name'', ''Asha''), (''last_name'', ''Rao''),
         (''chip_time'', ''00:45:12''), (''full_name'', ''Asha Rao'')] ''first_name'')
   \<and> [(''bib'', ''55''), (''full_name'', ''Ravi Shah''), (''chip_time'', ''01:02:33'')]
       \<in> set (scrape_dom_table [results_table])
   \<and> [(''bib'', ''55''), (''full_name'', ''Ravi Shah''), (''chip_time'', ''01:02:33'')] \<noteq> []"
proof -
  have mem: "[(''bib'', ''101''), (''first_name'', ''Asha''), (''last_name'', ''Rao''),
       (''chip_time'', ''00:45:12''), (''full_name'', ''Asha Rao'')]
       \<in> set (platform_extract str_of_scalar ''generic'' [sample_response])"
    by (simp add: sample_extract)
  have dom: "[(''bib'', ''55''), (''full_name'', ''Ravi Shah''), (''chip_time'', ''01:02:33'')]
       \<in> set (scrape_dom_table [results_table])"
    by (simp add: sample_dom)
  have key: "has_key [(''bib'', ''101''), (''first_name'', ''Asha''), (''last_name'', ''Rao''),
         (''chip_time'', ''00:45:12''), (''full_name'', ''Asha Rao'')] ''bib''
        \<or> has_key [(''bib'', ''101''), (''first_name'', ''Asha''), (''last_name'', ''Rao''),
         (''chip_time'', ''00:45:12''), (''full_name'', ''Asha Rao'')] ''full_name''
        \<or> has_key [(''bib'', ''101''), (''first_name'', ''Asha''), (''last_name'', ''Rao''),
         (''chip_time'', ''00:45:12''), (''full_name'', ''Asha Rao'')] ''first_name''"
    using json_rows_have_identity
         [where s = str_of_scalar and pk = "''generic''" and resps = "[sample_response]"
            and load_ok = True and tables = "[results_table]"
            and r = "[(''bib'', ''101''), (''first_name'', ''Asha''), (''last_name'', ''Rao''),
                      (''chip_time'', ''00:45:12''), (''full_name'', ''Asha Rao'')]"]
       mem
    by blast
  have ne: "[(''bib'', ''55''), (''full_name'', ''Ravi Shah''), (''chip_time'', ''01:02:33'')] \<noteq> []"
    using json_rows_have_identity
         [where s = str_of_scalar and pk = "''generic''" and resps = "[sample_response]"
            and load_ok = True and tables = "[results_table]"
            and r = "[(''bib'', ''55''), (''full_name'', ''Ravi Shah''), (''chip_time'', ''01:02:33'')]"]
       dom
    by blast
  show ?thesis using mem key dom ne by (intro conjI)
qed

text \<open>
  The claim as stated fails on the DOM fallback: a table with the columns Rank and
  Pace passes the keyword test, and its rows carry neither a bib nor a name.
\<close>

theorem json_rows_have_identity_counterexample:
  "intercept_api_data str_of_scalar ''generic'' True []
     [[[(Th, ''Rank''), (Th, ''Pace'')],
       [(Td, ''1''), (Td, ''4:00'')],
       [(Td, ''2''), (Td, ''4:06'')]]] =
     [[(''overall_rank'', ''1''), (''pace'', ''4:00'')],
      [(''overall_rank'', ''2''), (''pace'', ''4:06'')]]
   \<and> \<not> has_key [(''overall_rank'', ''1''), (''pace'', ''4:00'')] ''bib''
   \<and> \<not> has_key [(''overall_rank'', ''1''), (''pace'', ''4:00'')] ''full_name''
   \<and> \<not> has_key [(''overall_rank'', ''1''), (''pace'', ''4:00'')] ''first_name''"
  by code_simp

section \<open>The claims on the normalizer\<close>

text \<open>
  C2: \<open>normalize_result_row\<close> returns nothing exactly when none of bib, full_name,
  first_name is populated after key mapping; and when full_name is not populated but
  first_name is, the returned row's full_name is the non-empty ones of first_name and
  last_name joined with a single space and trimmed: the joined string is the full_name
  with white space only before and after it, and the full_name neither starts nor ends
  with white space. White space is the characters with the code points 9 to 13, 28 to
  32, 133 and 160.
\<close>

theorem normalize_result_row_contract:
  "(normalize_result_row s item = None) =
     (\<not> populated item ''bib'' \<and> \<not> populated item ''full_name'' \<and> \<not> populated item ''first_name'')
   \<and> (\<not> populated item ''full_name'' \<and> populated item ''first_name'' \<longrightarrow>
        (\<exists>r t pre suf.
           normalize_result_row s item = Some r
           \<and> map_of r ''full_name'' = Some t
           \<and> t = join_names (field_value s item ''first_name'') (field_value s item ''last_name'')
           \<and> joined_names (field_value s item ''first_name'') (field_value s item ''last_name'')
               = pre @ t @ suf
           \<and> list_all is_space pre \<and> list_all is_space suf
           \<and> (t = [] \<or> (\<not> is_space (hd t) \<and> \<not> is_space (last t)))))
   \<and> (is_space c \<longleftrightarrow>
        (of_char c :: nat) \<in> {9, 10, 11, 12, 13, 28, 29, 30, 31, 32, 133, 160})"
proof (intro conjI impI)
  show "(normalize_result_row s item = None) =
     (\<not> populated item ''bib'' \<and> \<not> populated item ''full_name'' \<and> \<not> populated item ''first_name'')"
    by (rule normalize_result_row_None)
  show "is_space c \<longleftrightarrow>
        (of_char c :: nat) \<in> {9, 10, 11, 12, 13, 28, 29, 30, 31, 32, 133, 160}"
    by (rule is_space_code_points)
  show "\<exists>r t pre suf.
           normalize_result_row s item = Some r
           \<and> map_of r ''full_name'' = Some t
           \<and> t = join_names (field_value s item ''first_name'') (field_value s item ''last_name'')
           \<and> joined_names (field_value s item ''first_name'') (field_value s item ''last_name'')
               = pre @ t @ suf
           \<and> list_all is_space pre \<and> list_all is_space suf
           \<and> (t = [] \<or> (\<not> is_space (hd t) \<and> \<not> is_space (last t)))"
    if h: "\<not> populated item ''full_name'' \<and> populated item ''first_name''"
  proof -
    let ?j = "joined_names (field_value s item ''first_name'') (field_value s item ''last_name'')"
    let ?t = "join_names (field_value s item ''first_name'') (field_value s item ''last_name'')"
    have t: "?t = strip ?j" by (rule join_names_joined)
    obtain pre suf where dec: "?j = pre @ ?t @ suf"
        and pre: "list_all is_space pre" and suf: "list_all is_space suf"
      using strip_decompose [of ?j] unfolding t by blast
    have ends: "?t = [] \<or> (\<not> is_space (hd ?t) \<and> \<not> is_space (last ?t))"
      unfolding t by (rule strip_ends)
    have row: "normalize_result_row s item =
        Some (AList.update ''full_name'' ?t (normalize_fields s item []))"
      using h normalize_result_row_synthesized [of item s] by simp
    have look: "map_of (AList.update ''full_name'' ?t (normalize_fields s item [])) ''full_name''
        = Some ?t"
      by (simp add: AList.update_conv')
    from row look dec pre suf ends show ?thesis by blast
  qed
qed

theorem normalize_result_row_contract_witness:
  "\<not> populated [(''First_Name'', JStr '' Asha''), (''last_name'', JStr (''Rao'' @ [CHR 0xA0])),
        (''club'', JNull)] ''full_name''
   \<and> populated [(''First_Name'', JStr '' Asha''), (''last_name'', JStr (''Rao'' @ [CHR 0xA0])),
        (''club'', JNull)] ''first_name''
   \<and> normalize_result_row str_of_scalar
        [(''First_Name'', JStr '' Asha''), (''last_name'', JStr (''Rao'' @ [CHR 0xA0])),
         (''club'', JNull)] =
      Some [(''first_name'', '' Asha''), (''last_name'', ''Rao'' @ [CHR 0xA0]), (''club'', []),
            (''full_name'', ''Asha Rao'')]
   \<and> map_of [(''first_name'', '' Asha''), (''last_name'', ''Rao'' @ [CHR 0xA0]), (''club'', []),
              (''full_name'', ''Asha Rao'')] ''full_name'' = Some ''Asha Rao''
   \<and> joined_names
        (field_value str_of_scalar
           [(''First_Name'', JStr '' Asha''), (''last_name'', JStr (''Rao'' @ [CHR 0xA0])),
            (''club'', JNull)] ''first_name'')
        (field_value str_of_scalar
           [(''First_Name'', JStr '' Asha''), (''last_name'', JStr (''Rao'' @ [CHR 0xA0])),
            (''club'', JNull)] ''last_name'')
      = '' '' @ ''Asha Rao'' @ [CHR 0xA0]
   \<and> is_space (CHR '' '') \<and> is_space (CHR 0xA0)
   \<and> normalize_result_row str_of_scalar [(''club'', JStr ''Runners Co''), (''city'', JStr ''Pune'')] = None"
proof -
  note inst = normalize_result_row_contract
         [where s = str_of_scalar
            and item = "[(''First_Name'', JStr '' Asha''), (''last_name'', JStr (''Rao'' @ [CHR 0xA0])),
                         (''club'', JNull)]"]
  have full: "map_of [(''first_name'', '' Asha''), (''last_name'', ''Rao'' @ [CHR 0xA0]), (''club'', []),
              (''full_name'', ''Asha Rao'')] ''full_name'' = Some ''Asha Rao''"
    using inst [where c = "CHR '' ''"] trim_item_populated
    unfolding trim_item_row
    by (metis option.inject trim_item_joined)
  have sp: "is_space (CHR '' '')"
    using inst [where c = "CHR '' ''"] by simp
  have nb: "is_space (CHR 0xA0)"
    using inst [where c = "CHR 0xA0"] by simp
  have rej: "normalize_result_row str_of_scalar [(''club'', JStr ''Runners Co''), (''city'', JStr ''Pune'')] = None"
    using normalize_result_row_contract
         [where s = str_of_scalar and c = "CHR '' ''"
            and item = "[(''club'', JStr ''Runners Co''), (''city'', JStr ''Pune'')]"]
       rejected_item_unpopulated
    by blast
  show ?thesis
    using trim_item_populated trim_item_row full trim_item_joined sp nb rej
    by (intro conjI) (erule conjE, assumption)+
qed

text \<open>
  C7, as amended: every field key of a row returned by \<open>normalize_result_row\<close> is one
  of the nineteen canonical fields (the names of \<open>COLUMN_ORDER\<close>) or \<open>age\<close>.
\<close>

theorem normalize_result_row_keys:
  "normalize_result_row s item = Some r \<Longrightarrow> fst ` set r \<subseteq> set COLUMN_ORDER \<union> {''age''}"
proof -
  assume a: "normalize_result_row s item = Some r"
  have base: "fst ` set (normalize_fields s item []) \<subseteq> set COLUMN_ORDER \<union> {''age''}"
    using normalize_fields_keys [of s item "[]"] field_map_range by auto
  have "r = normalize_fields s item []
      \<or> (\<exists>v. r = AList.update ''full_name'' v (normalize_fields s item []))"
    using a by (auto simp: normalize_result_row_def Let_def split: if_splits)
  then show ?thesis
  proof
    assume "r = normalize_fields s item []"
    then show ?thesis using base by simp
  next
    assume "\<exists>v. r = AList.update ''full_name'' v (normalize_fields s item [])"
    then obtain v where r: "r = AList.update ''full_name'' v (normalize_fields s item [])"
      by blast
    have "fst ` set r = {''full_name''} \<union> fst ` set (normalize_fields s item [])"
      unfolding r by (rule AList.dom_update)
    moreover have "{''full_name''} \<subseteq> set COLUMN_ORDER \<union> {''age''}"
      using full_name_column by simp
    ultimately show ?thesis using base by (simp only: Un_subset_iff)
  qed
qed

theorem normalize_result_row_keys_witness:
  "normalize_result_row str_of_scalar [(''bibno'', JStr ''7''), (''age'', JStr ''30'')] =
     Some [(''bib'', ''7''), (''age'', ''30'')]
   \<and> fst ` set [(''bib'', ''7''), (''age'', ''30'')] \<subseteq> set COLUMN_ORDER \<union> {''age''}"
proof -
  have val: "normalize_result_row str_of_scalar [(''bibno'', JStr ''7''), (''age'', JStr ''30'')] =
     Some [(''bib'', ''7''), (''age'', ''30'')]"
    by code_simp
  show ?thesis using val normalize_result_row_keys [OF val] by (intro conjI)
qed

text \<open>
  The claim as stated fails: the table maps the source key \<open>age\<close> to the field \<open>age\<close>,
  which is not a canonical field.
\<close>

theorem normalize_result_row_keys_counterexample:
  "normalize_result_row str_of_scalar [(''bibno'', JStr ''7''), (''age'', JStr ''30'')] =
     Some [(''bib'', ''7''), (''age'', ''30'')]
   \<and> ''age'' \<in> fst ` set [(''bib'', ''7''), (''age'', ''30'')]
   \<and> ''age'' \<notin> set COLUMN_ORDER"
  by code_simp

section \<open>The claim on the DOM scenario\<close>

text \<open>
  C8, as amended: a table with the headers Bib, Name, Finish Time whose first data row
  is 55, Ravi Shah, 01:02:33 and which has at least one further row yields
  \<open>{bib: 55, full_name: Ravi Shah, chip_time: 01:02:33}\<close> as its first row, followed
  by the rows of the further ones; with that single data row alone the table has fewer
  than three rows and contributes nothing; a table with the headers Sponsor, Logo
  contributes no rows.
\<close>

theorem scrape_dom_table_scenario:
  "(further \<noteq> [] \<longrightarrow>
      scrape_dom_table
        [[(Th, ''Bib''), (Th, ''Name''), (Th, ''Finish Time'')]
           # [(Td, ''55''), (Td, ''Ravi Shah''), (Td, ''01:02:33'')] # further,
         [(Th, ''Sponsor''), (Th, ''Logo'')] # body] =
      [(''bib'', ''55''), (''full_name'', ''Ravi Shah''), (''chip_time'', ''01:02:33'')]
        # extract_data_rows [(0, ''bib''), (1, ''full_name''), (2, ''chip_time'')] further)
   \<and> scrape_dom_table
        [[[(Th, ''Bib''), (Th, ''Name''), (Th, ''Finish Time'')],
          [(Td, ''55''), (Td, ''Ravi Shah''), (Td, ''01:02:33'')]]] = []
   \<and> scrape_dom_table [[(Th, ''Sponsor''), (Th, ''Logo'')] # body] = []"
  using scrape_dom_table_results_then_sponsor [of further body]
        scrape_dom_table_single_row scrape_dom_table_sponsor [of body]
  by (intro conjI impI)

theorem scrape_dom_table_scenario_witness:
  "[[(Td, ''56''), (Td, ''Meera Nair''), (Td, ''01:05:10'')]] \<noteq> []
   \<and> scrape_dom_table
        [[(Th, ''Bib''), (Th, ''Name''), (Th, ''Finish Time'')]
           # [(Td, ''55''), (Td, ''Ravi Shah''), (Td, ''01:02:33'')]
           # [[(Td, ''56''), (Td, ''Meera Nair''), (Td, ''01:05:10'')]],
         [(Th, ''Sponsor''), (Th, ''Logo'')]
           # [[(Td, ''Acme''), (Td, ''acme.png'')], [(Td, ''Zed''), (Td, ''zed.png'')]]] =
      [[(''bib'', ''55''), (''full_name'', ''Ravi Shah''), (''chip_time'', ''01:02:33'')],
       [(''bib'', ''56''), (''full_name'', ''Meera Nair''), (''chip_time'', ''01:05:10'')]]"
proof -
  have ne: "[[(Td, ''56''), (Td, ''Meera Nair''), (Td, ''01:05:10'')]] \<noteq> []"
    by simp
  have rest: "extract_data_rows [(0, ''bib''), (1, ''full_name''), (2, ''chip_time'')]
       [[(Td, ''56''), (Td, ''Meera Nair''), (Td, ''01:05:10'')]] =
     [[(''bib'', ''56''), (''full_name'', ''Meera Nair''), (''chip_time'', ''01:05:10'')]]"
    by code_simp
  from scrape_dom_table_scenario
         [where further = "[[(Td, ''56''), (Td, ''Meera Nair''), (Td, ''01:05:10'')]]"
            and body = "[[(Td, ''Acme''), (Td, ''acme.png'')], [(Td, ''Zed''), (Td, ''zed.png'')]]"]
       ne
  have "scrape_dom_table
        [[(Th, ''Bib''), (Th, ''Name''), (Th, ''Finish Time'')]
           # [(Td, ''55''), (Td, ''Ravi Shah''), (Td, ''01:02:33'')]
           # [[(Td, ''56''), (Td, ''Meera Nair''), (Td, ''01:05:10'')]],
         [(Th, ''Sponsor''), (Th, ''Logo'')]
           # [[(Td, ''Acme''), (Td, ''acme.png'')], [(Td, ''Zed''), (Td, ''zed.png'')]]] =
      [(''bib'', ''55''), (''full_name'', ''Ravi Shah''), (''chip_time'', ''01:02:33'')]
        # extract_data_rows [(0, ''bib''), (1, ''full_name''), (2, ''chip_time'')]
            [[(Td, ''56''), (Td, ''Meera Nair''), (Td, ''01:05:10'')]]"
    by blast
  then show ?thesis using ne by (simp only: rest simp_thms)
qed

text \<open>
  The claim as stated fails: the table with the single data row is skipped, so the
  extractor produces no row.
\<close>

theorem scrape_dom_table_scenario_counterexample:
  "scrape_dom_table
     [[[(Th, ''Bib''), (Th, ''Name''), (Th, ''Finish Time'')],
       [(Td, ''55''), (Td, ''Ravi Shah''), (Td, ''01:02:33'')]]] = []"
  by code_simp

section \<open>The claim on the candidate array finder\<close>

text \<open>
  C9: \<open>find_result_arrays\<close> emits, in depth-first order, exactly the accepted arrays among
  the values reachable from the root through at most \<open>max_depth - depth\<close> steps from an
  object to one of its values. At an array it emits the array itself or nothing, whatever
  the elements hold, and past the maximum depth it returns no candidates. It is a total
  function: every call returns a list.
\<close>

theorem find_result_arrays_object_paths:
  "find_result_arrays data depth max_depth =
     (if depth > max_depth then []
      else concat (map candidate (object_values (nat (max_depth - depth)) data)))
   \<and> find_result_arrays (JArr arr) depth max_depth =
       (if depth \<le> max_depth \<and> arr \<noteq> [] \<and> is_dict (hd arr) \<and> score_result_array arr > 2
        then [arr] else [])
   \<and> (max_depth < depth \<longrightarrow> find_result_arrays data depth max_depth = [])"
proof -
  have eq: "find_result_arrays d depth max_depth =
     (if depth > max_depth then []
      else concat (map candidate (object_values (nat (max_depth - depth)) d)))" for d
  proof (cases "depth > max_depth")
    case True
    then show ?thesis by (simp add: find_result_arrays.simps)
  next
    case False
    then show ?thesis using find_result_arrays_eq [of depth max_depth _ d] by simp
  qed
  show ?thesis
    by (auto simp: eq [of data] eq [of "JArr arr"] object_values_JArr candidate_def)
qed

theorem find_result_arrays_object_paths_witness:
  "(5::int) < 6
   \<and> find_result_arrays
        (JObj [(''meta'', JStr ''x''),
               (''data'', JObj [(''results'', JArr [JObj [(''bibno'', JNull), (''pace'', JNull)]])])]) 6 5 = []
   \<and> find_result_arrays
        (JObj [(''meta'', JStr ''x''),
               (''data'', JObj [(''results'', JArr [JObj [(''bibno'', JNull), (''pace'', JNull)]])])]) 0 5 =
      [[JObj [(''bibno'', JNull), (''pace'', JNull)]]]
   \<and> find_result_arrays
        (JArr [JObj [(''results'', JArr [JObj [(''bibno'', JNull), (''pace'', JNull)]])]]) 0 5 = []"
proof -
  have lt: "(5::int) < 6" by simp
  have deep: "find_result_arrays
        (JObj [(''meta'', JStr ''x''),
               (''data'', JObj [(''results'', JArr [JObj [(''bibno'', JNull), (''pace'', JNull)]])])]) 6 5 = []"
    using find_result_arrays_object_paths
         [where depth = 6 and max_depth = 5
            and data = "JObj [(''meta'', JStr ''x''),
               (''data'', JObj [(''results'', JArr [JObj [(''bibno'', JNull), (''pace'', JNull)]])])]"]
       lt
    by blast
  have found: "find_result_arrays
        (JObj [(''meta'', JStr ''x''),
               (''data'', JObj [(''results'', JArr [JObj [(''bibno'', JNull), (''pace'', JNull)]])])]) 0 5 =
      [[JObj [(''bibno'', JNull), (''pace'', JNull)]]]"
    by code_simp
  have inside: "find_result_arrays
        (JArr [JObj [(''results'', JArr [JObj [(''bibno'', JNull), (''pace'', JNull)]])]]) 0 5 = []"
    by code_simp
  show ?thesis using lt deep found inside by (intro conjI)
qed

end
